theory Spec2Isabelle
  imports Main "HOL-Library.Word"
begin

unbundle bit_operations_syntax

section \<open>Python values and library operations used by extract\_kernel.py\<close>

text \<open>
  The image and every slice of it are Python \<^verbatim>\<open>bytes\<close>: lists of 8-bit values.
  All integers the program computes come from \<^verbatim>\<open>struct.unpack\<close> with the unsigned
  formats \<^verbatim>\<open><I\<close> and \<^verbatim>\<open><H\<close>, from byte values and from \<^verbatim>\<open>len\<close>, so
  they are natural numbers (Python integers do not wrap).
  An exception is a value \<open>Inl e\<close> of the result; \<^verbatim>\<open>print\<close> is left out.
\<close>

type_synonym byte = "8 word"

datatype py_error =
  IndexError | StructError | UnicodeDecodeError | ZeroDivisionError | TypeError
  | ValueError | OSError

definition bind_err :: "py_error + 'a \<Rightarrow> ('a \<Rightarrow> py_error + 'b) \<Rightarrow> py_error + 'b" where
  "bind_err m f = (case m of Inl e \<Rightarrow> Inl e | Inr v \<Rightarrow> f v)"

text \<open>\<^verbatim>\<open>xs[i]\<close> for \<open>0 \<le> i\<close>: IndexError out of range.\<close>

definition getitem :: "byte list \<Rightarrow> nat \<Rightarrow> py_error + byte" where
  "getitem xs i = (if i < length xs then Inr (xs ! i) else Inl IndexError)"

text \<open>\<^verbatim>\<open>xs[a:b]\<close> for \<open>0 \<le> a\<close>, \<open>0 \<le> b\<close>: clipped to the buffer, never an error.\<close>

definition slice :: "byte list \<Rightarrow> nat \<Rightarrow> nat \<Rightarrow> byte list" where
  "slice xs a b = take (b - a) (drop a xs)"

fun le_value :: "byte list \<Rightarrow> nat" where
  "le_value [] = 0"
| "le_value (b # bs) = unat b + 256 * le_value bs"

text \<open>
  \<^verbatim>\<open>struct.unpack('<I', buf)[0]\<close> and \<^verbatim>\<open>struct.unpack('<H', buf)[0]\<close>: the buffer
  must have exactly the size of the format (4 and 2 bytes), otherwise \<^verbatim>\<open>struct.error\<close>.
\<close>

definition unpack_I :: "byte list \<Rightarrow> py_error + nat" where
  "unpack_I buf = (if length buf = 4 then Inr (le_value buf) else Inl StructError)"

definition unpack_H :: "byte list \<Rightarrow> py_error + nat" where
  "unpack_H buf = (if length buf = 2 then Inr (le_value buf) else Inl StructError)"

text \<open>\<^verbatim>\<open>buf.decode('ascii')\<close>: UnicodeDecodeError on a byte above 127.\<close>

definition decode_ascii :: "byte list \<Rightarrow> py_error + string" where
  "decode_ascii buf =
     (if list_all (\<lambda>b. unat b < 128) buf then Inr (map (\<lambda>b. char_of (unat b)) buf)
      else Inl UnicodeDecodeError)"

text \<open>\<^verbatim>\<open>str.isspace\<close> on one ASCII character, and \<^verbatim>\<open>str.strip()\<close>, which
  removes white space at both ends.\<close>

definition is_space :: "char \<Rightarrow> bool" where
  "is_space c = List.member [9, 10, 11, 12, 13, 28, 29, 30, 31, 32 :: nat] (of_char c)"

definition strip :: "string \<Rightarrow> string" where
  "strip s = rev (dropWhile is_space (rev (dropWhile is_space s)))"

text \<open>
  \<^verbatim>\<open>buf.find(sub)\<close>: the lowest index at which \<open>sub\<close> occurs in \<open>buf\<close>;
  Python's \<open>-1\<close> is \<open>None\<close>.
\<close>

fun bytes_find :: "byte list \<Rightarrow> byte list \<Rightarrow> nat option" where
  "bytes_find [] sub = (if sub = [] then Some 0 else None)"
| "bytes_find (x # xs) sub =
     (if take (length sub) (x # xs) = sub then Some 0
      else map_option Suc (bytes_find xs sub))"

section \<open>parse\_directory\_record\<close>

text \<open>The dictionary that \<^verbatim>\<open>parse_directory_record\<close> returns, key by key
  (\<^verbatim>\<open>'length'\<close> is \<open>data_length\<close>, \<^verbatim>\<open>'record'\<close> is \<open>raw_record\<close>).\<close>

record dir_record =
  name :: string
  extent :: nat
  data_length :: nat
  is_dir :: bool
  raw_record :: "byte list"

definition parse_directory_record :: "byte list \<Rightarrow> py_error + dir_record option" where
  "parse_directory_record record_data =
     (case record_data of
        [] \<Rightarrow> Inr None
      | b0 # _ \<Rightarrow>
          if b0 = 0 then Inr None
          else
            bind_err (getitem record_data 0) (\<lambda>len.
            bind_err (getitem record_data 1) (\<lambda>ext_attr_length.
            bind_err (unpack_I (slice record_data 2 6 @ [0, 0, 0, 0])) (\<lambda>extent_location.
            bind_err (unpack_I (slice record_data 10 14 @ [0, 0, 0, 0])) (\<lambda>data_len.
            bind_err (getitem record_data 32) (\<lambda>name_length.
            bind_err (decode_ascii (slice record_data 33 (33 + unat name_length))) (\<lambda>s.
            bind_err (getitem record_data 25) (\<lambda>flags.
              Inr (Some \<lparr>name = strip s, extent = extent_location,
                         data_length = data_len, is_dir = (flags AND 2 \<noteq> 0),
                         raw_record = slice record_data 0 (unat len)\<rparr>)))))))))"

section \<open>parse\_iso9660\_primary\_volume\_descriptor\<close>

text \<open>
  The \<^verbatim>\<open>while True\<close> loop over the descriptor sectors, as a function of the
  current offset. The result \<open>Inr None\<close> is the pair \<^verbatim>\<open>(None, None)\<close> returned after
  \<^verbatim>\<open>break\<close>; \<open>Inr (Some (root_dir_record, logical_block_size))\<close> is the pair
  returned from inside the loop. \<^verbatim>\<open>descriptor[0]\<close> raises IndexError once the offset
  has passed the end of the image, so the loop always ends.
\<close>

function pvd_loop :: "byte list \<Rightarrow> nat \<Rightarrow> py_error + (byte list \<times> nat) option" where
  "pvd_loop iso_data offset =
     (let descriptor = slice iso_data offset (offset + 2048) in
      case getitem descriptor 0 of
        Inl e \<Rightarrow> Inl e
      | Inr type_code \<Rightarrow>
          if type_code = 0 then pvd_loop iso_data (offset + 2048)
          else if type_code = 1 then
            (let pvd = descriptor in
             bind_err (decode_ascii (slice pvd 8 40)) (\<lambda>system_id.
             bind_err (decode_ascii (slice pvd 40 72)) (\<lambda>volume_id.
             bind_err (unpack_I (slice pvd 80 84)) (\<lambda>volume_space_size.
             bind_err (unpack_H (slice pvd 120 122)) (\<lambda>volume_set_size.
             bind_err (unpack_H (slice pvd 124 126)) (\<lambda>volume_sequence_number.
             bind_err (unpack_H (slice pvd 128 130)) (\<lambda>logical_block_size.
             bind_err (unpack_I (slice pvd 132 136)) (\<lambda>path_table_size.
               Inr (Some (slice pvd 156 190, logical_block_size))))))))))
          else if type_code = 255 then Inr None
          else pvd_loop iso_data (offset + 2048))"
  by pat_completeness auto
termination
  by (relation "measure (\<lambda>(iso_data, offset). length iso_data - offset)")
     (auto simp: getitem_def slice_def split: if_splits)

definition parse_iso9660_primary_volume_descriptor ::
    "byte list \<Rightarrow> py_error + (byte list \<times> nat) option" where
  "parse_iso9660_primary_volume_descriptor iso_data = pvd_loop iso_data 0x8000"

section \<open>find\_file\_in\_path\<close>

text \<open>
  The inner \<^verbatim>\<open>while offset < len(dir_data)\<close> loop, as a function of the offset.
  It can run forever, so it is a partial function: the value \<open>None\<close> says that the
  loop does not end. \<open>Some (Inr (Some entry))\<close> is the exit by \<^verbatim>\<open>break\<close> with
  \<^verbatim>\<open>found = True\<close>, \<open>Some (Inr None)\<close> the exit with \<^verbatim>\<open>found = False\<close>, and
  \<open>Some (Inl e)\<close> an exception. \<^verbatim>\<open>offset % block_size\<close> raises ZeroDivisionError
  for a block size of 0.
\<close>

partial_function (option) scan_entries ::
    "byte list \<Rightarrow> nat \<Rightarrow> string \<Rightarrow> nat \<Rightarrow> (py_error + dir_record option) option" where
  "scan_entries dir_data block_size component offset =
     (if offset < length dir_data then
        (let record_length = unat (dir_data ! offset) in
         if record_length = 0 then
           (if block_size = 0 then Some (Inl ZeroDivisionError)
            else
              (let sector_remainder = block_size - offset mod block_size in
               if sector_remainder < block_size
               then scan_entries dir_data block_size component (offset + sector_remainder)
               else scan_entries dir_data block_size component offset))
         else
           (let record = slice dir_data offset (offset + record_length) in
            case parse_directory_record record of
              Inl e \<Rightarrow> Some (Inl e)
            | Inr None \<Rightarrow>
                scan_entries dir_data block_size component (offset + record_length)
            | Inr (Some entry) \<Rightarrow>
                if name entry = component then Some (Inr (Some entry))
                else scan_entries dir_data block_size component (offset + record_length)))
      else Some (Inr None))"

declare scan_entries.simps [code]

text \<open>The \<^verbatim>\<open>for component in path_components\<close> loop, with \<open>current\<close> as its state.\<close>

fun walk_path ::
    "byte list \<Rightarrow> nat \<Rightarrow> dir_record \<Rightarrow> string list \<Rightarrow> (py_error + dir_record option) option" where
  "walk_path iso_data block_size current [] = Some (Inr (Some current))"
| "walk_path iso_data block_size current (component # rest) =
     (if \<not> is_dir current then Some (Inr None)
      else
        (let extent_offset = extent current * block_size;
             dir_data = slice iso_data extent_offset (extent_offset + data_length current) in
         case scan_entries dir_data block_size component 0 of
           None \<Rightarrow> None
         | Some (Inl e) \<Rightarrow> Some (Inl e)
         | Some (Inr None) \<Rightarrow> Some (Inr None)
         | Some (Inr (Some entry)) \<Rightarrow> walk_path iso_data block_size entry rest))"

text \<open>
  \<open>root_record\<close> is what \<^verbatim>\<open>main\<close> passes: the result of
  \<^verbatim>\<open>parse_directory_record\<close>, a dictionary or \<^verbatim>\<open>None\<close>; subscripting
  \<^verbatim>\<open>None\<close> raises TypeError.
\<close>

definition find_file_in_path ::
    "byte list \<Rightarrow> dir_record option \<Rightarrow> nat \<Rightarrow> string list
       \<Rightarrow> (py_error + dir_record option) option" where
  "find_file_in_path iso_data root_record block_size path_components =
     (if path_components = [] then Some (Inr None)
      else case root_record of
             None \<Rightarrow> Some (Inl TypeError)
           | Some current \<Rightarrow> walk_path iso_data block_size current path_components)"

section \<open>extract\_file\<close>

text \<open>
  The file system holds the contents of the files and says, path by path, whether
  \<^verbatim>\<open>open(output_path, 'wb')\<close> and the write that follows succeed. The slice is
  taken first and cannot fail. Then \<^verbatim>\<open>open\<close> raises ValueError for a path with an
  embedded NUL character and OSError when the system refuses the file; otherwise the bytes
  are written at \<open>output_path\<close> and returned.
\<close>

record file_system =
  contents :: "string \<rightharpoonup> byte list"
  writable :: "string \<Rightarrow> bool"

definition extract_file ::
    "byte list \<Rightarrow> dir_record \<Rightarrow> nat \<Rightarrow> string \<Rightarrow> file_system
       \<Rightarrow> py_error + (byte list \<times> file_system)" where
  "extract_file iso_data file_record block_size output_path fs =
     (let extent_offset = extent file_record * block_size;
          file_data = slice iso_data extent_offset (extent_offset + data_length file_record)
      in if CHR 0x00 \<in> set output_path then Inl ValueError
         else if \<not> writable fs output_path then Inl OSError
         else Inr (file_data, fs\<lparr>contents := (contents fs)(output_path \<mapsto> file_data)\<rparr>))"

section \<open>The signature scan of main\<close>

text \<open>
  Lines 176 to 186 of \<^verbatim>\<open>main\<close>, as a function of the image: \<open>Some kernel_data\<close> is
  what is written to the output file, \<open>None\<close> is \<^verbatim>\<open>return 1\<close>.
\<close>

definition kernel_magic :: "byte list" where
  "kernel_magic = [0xb8, 0xc0, 0x07, 0x8e]"

definition fallback_scan :: "byte list \<Rightarrow> byte list option" where
  "fallback_scan iso_data =
     (case bytes_find iso_data kernel_magic of
        Some pos \<Rightarrow> Some (slice iso_data pos (pos + 20 * 1024 * 1024))
      | None \<Rightarrow> None)"

section \<open>Fixtures\<close>

text \<open>
  The root directory record of an image as it stands in a Primary Volume Descriptor:
  34 bytes, extent 18 and data length 2048 in both byte orders, flags 2 (a directory),
  identifier of length 1 holding the byte 0.
\<close>

definition root_record_bytes :: "byte list" where
  "root_record_bytes =
     [34, 0, 18, 0, 0, 0, 0, 0, 0, 18, 0, 8, 0, 0, 0, 0, 8, 0,
      0, 0, 0, 0, 0, 0, 0, 2, 0, 0, 1, 0, 0, 1, 1, 0]"

text \<open>A directory of one byte, the byte 0, at block 0 of a one-byte image.\<close>

definition padding_only_dir :: dir_record where
  "padding_only_dir =
     \<lparr>name = [], extent = 0, data_length = 1, is_dir = True, raw_record = []\<rparr>"

text \<open>
  A descriptor area: 16 empty sectors, then a Primary Volume Descriptor with the
  identifier CD001, block size 2048 at [128:130) and the root record at [156:190), then a
  Terminator.
\<close>

definition pvd_sector :: "byte list" where
  "pvd_sector =
     [1, 67, 68, 48, 48, 49, 1, 0] @ replicate 120 0 @ [0, 8] @ replicate 26 0
       @ root_record_bytes @ replicate 1858 0"

definition terminator_sector :: "byte list" where
  "terminator_sector = [255, 67, 68, 48, 48, 49, 1] @ replicate 2041 0"

definition pvd_image :: "byte list" where
  "pvd_image = replicate 0x8000 0 @ pvd_sector @ terminator_sector"

text \<open>The same area with the byte 0xE9 as first byte of the system identifier.\<close>

definition bad_sysid_image :: "byte list" where
  "bad_sysid_image =
     replicate 0x8000 0 @ [1, 67, 68, 48, 48, 49, 1, 0, 0xE9] @ replicate 2039 0
       @ terminator_sector"

text \<open>A boot sector (type 0) followed by a Terminator, with no Primary descriptor.\<close>

definition no_primary_image :: "byte list" where
  "no_primary_image = replicate 0x8000 0 @ replicate 2048 0 @ terminator_sector"

text \<open>
  An image of three blocks of 2048 bytes. Block 0 is the root directory: the records
  of \<open>.\<close> and \<open>..\<close> and of the directory \<open>D\<close> (extent 1, length 2048), then
  padding. Block 1 is the directory \<open>D\<close>: \<open>.\<close>, \<open>..\<close> and the file \<open>F\<close>
  (extent 2, length 3), then padding. Block 2 starts with the 3 bytes of \<open>F\<close>.
  \<open>tree_root\<close> is the root record as a dictionary.
\<close>

definition tree_root_sector :: "byte list" where
  "tree_root_sector =
     [34, 0, 0, 0, 0, 0, 0, 0, 0, 0, 0, 8, 0, 0, 0, 0, 8, 0,
      0, 0, 0, 0, 0, 0, 0, 2, 0, 0, 1, 0, 0, 1, 1, 0]
     @ [34, 0, 0, 0, 0, 0, 0, 0, 0, 0, 0, 8, 0, 0, 0, 0, 8, 0,
        0, 0, 0, 0, 0, 0, 0, 2, 0, 0, 1, 0, 0, 1, 1, 1]
     @ [34, 0, 1, 0, 0, 0, 0, 0, 0, 1, 0, 8, 0, 0, 0, 0, 8, 0,
        0, 0, 0, 0, 0, 0, 0, 2, 0, 0, 1, 0, 0, 1, 1, 68]
     @ replicate 1946 0"

definition tree_sub_sector :: "byte list" where
  "tree_sub_sector =
     [34, 0, 1, 0, 0, 0, 0, 0, 0, 1, 0, 8, 0, 0, 0, 0, 8, 0,
      0, 0, 0, 0, 0, 0, 0, 2, 0, 0, 1, 0, 0, 1, 1, 0]
     @ [34, 0, 0, 0, 0, 0, 0, 0, 0, 0, 0, 8, 0, 0, 0, 0, 8, 0,
        0, 0, 0, 0, 0, 0, 0, 2, 0, 0, 1, 0, 0, 1, 1, 1]
     @ [34, 0, 2, 0, 0, 0, 0, 0, 0, 2, 3, 0, 0, 0, 0, 0, 0, 3,
        0, 0, 0, 0, 0, 0, 0, 0, 0, 0, 1, 0, 0, 1, 1, 70]
     @ replicate 1946 0"

definition tree_payload :: "byte list" where
  "tree_payload = [0xDE, 0xAD, 0xBE]"

definition tree_image :: "byte list" where
  "tree_image = tree_root_sector @ tree_sub_sector @ tree_payload"

definition tree_root :: dir_record where
  "tree_root = \<lparr>name = [CHR 0x00], extent = 0, data_length = 2048, is_dir = True,
                 raw_record = take 34 tree_root_sector\<rparr>"

text \<open>A file record reaching past the end of a 3-byte image, and a directory record
  whose extent starts past its end.\<close>

definition oversized_file :: dir_record where
  "oversized_file = \<lparr>name = ''F'', extent = 0, data_length = 10, is_dir = False, raw_record = []\<rparr>"

definition far_dir :: dir_record where
  "far_dir = \<lparr>name = ''D'', extent = 5, data_length = 2, is_dir = True, raw_record = []\<rparr>"

text \<open>A directory record of 2048 bytes at block 0, for an image of 3 bytes: the read
  overlaps the end of the image.\<close>

definition overlapping_dir :: dir_record where
  "overlapping_dir =
     \<lparr>name = ''D'', extent = 0, data_length = 2048, is_dir = True, raw_record = []\<rparr>"

text \<open>An empty file system that accepts every write, and one that refuses every write.\<close>

definition open_fs :: file_system where
  "open_fs = \<lparr>contents = Map.empty, writable = (\<lambda>path. True)\<rparr>"

definition read_only_fs :: file_system where
  "read_only_fs = \<lparr>contents = Map.empty, writable = (\<lambda>path. False)\<rparr>"

section \<open>Basic facts about the library operations\<close>

lemma length_slice: "length (slice xs a b) = min (b - a) (length xs - a)"
  by (simp add: slice_def)

lemma slice_slice:
  "b \<le> n \<Longrightarrow> slice (slice xs off (off + n)) a b = slice xs (off + a) (off + b)"
  by (simp add: slice_def drop_take min_def add.commute)

lemma slice_two:
  assumes "a + 2 \<le> length xs"
  shows "slice xs a (a + 2) = [xs ! a, xs ! (a + 1)]"
proof (rule nth_equalityI)
  show "length (slice xs a (a + 2)) = length [xs ! a, xs ! (a + 1)]"
    using assms by (simp add: slice_def)
next
  fix i assume "i < length (slice xs a (a + 2))"
  then have "i < 2" by (simp add: slice_def)
  then have "i = 0 \<or> i = 1" by arith
  then show "slice xs a (a + 2) ! i = [xs ! a, xs ! (a + 1)] ! i"
    using assms by (auto simp: slice_def)
qed

lemma slice_clip: "slice xs p (min (p + w) (length xs)) = slice xs p (p + w)"
  by (simp add: slice_def min_def)

lemma bind_err_Inr [simp]: "bind_err (Inr v) f = f v"
  by (simp add: bind_err_def)

lemma bind_err_Inl [simp]: "bind_err (Inl e) f = Inl e"
  by (simp add: bind_err_def)

section \<open>parse\_directory\_record never returns a record\<close>

text \<open>
  A buffer of 4 bytes more than the format wants makes \<^verbatim>\<open>struct.unpack\<close> raise:
  with at least 3 bytes in \<open>record_data\<close> the buffer built for \<open>extent_location\<close>
  has 5 to 8 bytes. Shorter records fail at \<^verbatim>\<open>record_data[1]\<close> or
  \<^verbatim>\<open>record_data[32]\<close>.
\<close>

lemma parse_directory_record_raises:
  assumes "record_data \<noteq> []" and "record_data ! 0 \<noteq> 0"
  shows "\<exists>e. parse_directory_record record_data = Inl e"
proof (cases record_data)
  case Nil
  with assms show ?thesis by simp
next
  case (Cons b0 rest)
  with assms have "b0 \<noteq> 0" by simp
  with Cons show ?thesis
    by (auto simp: parse_directory_record_def bind_err_def getitem_def unpack_I_def slice_def
             split: sum.splits if_splits)
qed

lemma parse_directory_record_struct_error:
  assumes "3 \<le> length record_data" and "record_data ! 0 \<noteq> 0"
  shows "parse_directory_record record_data = Inl StructError"
proof (cases record_data)
  case Nil
  with assms show ?thesis by simp
next
  case (Cons b0 rest)
  with assms have "b0 \<noteq> 0" and "rest \<noteq> []" and "2 \<le> length rest" by auto
  with Cons show ?thesis
    by (auto simp: parse_directory_record_def getitem_def unpack_I_def slice_def)
qed

text \<open>
  C1 (the code misses the claim). The claim: for a record with a nonzero first byte that
  is long enough for the fixed fields, \<^verbatim>\<open>parse_directory_record\<close> returns a
  DirectoryRecord with the fields read from offsets 0, 2, 10, 25, 32 and 33. On the root
  directory record of 34 bytes the code raises \<^verbatim>\<open>struct.error\<close> and returns nothing:
  line 59 hands \<^verbatim>\<open>struct.unpack('<I', ...)\<close> a buffer of 8 bytes.
\<close>

theorem parse_directory_record_root_raises:
  "parse_directory_record root_record_bytes = Inl StructError"
  by (simp add: root_record_bytes_def parse_directory_record_def getitem_def unpack_I_def
                slice_def)

section \<open>The entry scan of find\_file\_in\_path\<close>

text \<open>
  At a zero byte whose offset is a multiple of the block size, \<open>sector_remainder\<close>
  equals \<open>block_size\<close>, the offset is not advanced, and \<^verbatim>\<open>continue\<close> repeats
  the same iteration: the loop does not end.
\<close>

lemma scan_entries_returns_not_aligned_zero:
  assumes "scan_entries d bs c off = Some r"
  shows "\<not> (off < length d \<and> d ! off = 0 \<and> bs \<noteq> 0 \<and> off mod bs = 0)"
proof (rule scan_entries.raw_induct
    [where P = "\<lambda>d bs c off r. \<not> (off < length d \<and> d ! off = 0 \<and> bs \<noteq> 0 \<and> off mod bs = 0)",
     OF _ assms], goal_cases)
  case (1 f d bs c off r)
  show ?case
  proof
    assume L: "off < length d \<and> d ! off = 0 \<and> bs \<noteq> 0 \<and> off mod bs = 0"
    with 1(2) have "f d bs c off = Some r" by simp
    from 1(1)[OF this] L show False by blast
  qed
qed

lemma scan_entries_aligned_zero_diverges:
  assumes "off < length d" and "d ! off = 0" and "bs \<noteq> 0" and "off mod bs = 0"
  shows "scan_entries d bs c off = None"
proof (cases "scan_entries d bs c off")
  case None
  then show ?thesis .
next
  case (Some r)
  from scan_entries_returns_not_aligned_zero[OF Some] assms show ?thesis by blast
qed

text \<open>
  C4 (the code misses the claim). The claim: for every image, root record, positive block
  size and path, \<^verbatim>\<open>find_file_in_path\<close> terminates, and at a padding byte the scan
  advances to the next multiple of the block size. On the one-byte image holding 0, a root
  directory of length 1 at block 0, block size 2048 and the path \<open>[''a'']\<close>, the scan
  meets the padding byte at offset 0, does not advance, and never returns.
\<close>

theorem find_file_in_path_padding_diverges:
  "find_file_in_path [0] (Some padding_only_dir) 2048 [''a''] = None"
  by (simp add: find_file_in_path_def padding_only_dir_def slice_def
                scan_entries_aligned_zero_diverges)

text \<open>
  C10. With an empty list of path components \<^verbatim>\<open>find_file_in_path\<close> returns
  \<^verbatim>\<open>None\<close>, whatever the image, the root record and the block size are; the root
  record is not returned.
\<close>

theorem find_file_in_path_empty_path:
  "find_file_in_path iso_data root_record block_size [] = Some (Inr None)"
  by (simp add: find_file_in_path_def)

section \<open>The descriptor scan\<close>

declare pvd_loop.simps [simp del]

lemma getitem_sector:
  "getitem (slice iso_data off (off + 2048)) 0 =
     (if off < length iso_data then Inr (iso_data ! off) else Inl IndexError)"
  by (simp add: getitem_def slice_def)

lemma pvd_loop_end: "length iso_data \<le> off \<Longrightarrow> pvd_loop iso_data off = Inl IndexError"
  by (subst pvd_loop.simps) (simp add: getitem_sector)

lemma pvd_loop_terminator:
  "off < length iso_data \<Longrightarrow> iso_data ! off = 255 \<Longrightarrow> pvd_loop iso_data off = Inr None"
  by (subst pvd_loop.simps) (simp add: getitem_sector)

lemma pvd_loop_skip:
  "off < length iso_data \<Longrightarrow> iso_data ! off \<noteq> 1 \<Longrightarrow> iso_data ! off \<noteq> 255 \<Longrightarrow>
   pvd_loop iso_data off = pvd_loop iso_data (off + 2048)"
  by (subst pvd_loop.simps) (simp add: getitem_sector)

lemma pvd_loop_primary:
  assumes len: "off + 2048 \<le> length iso_data"
    and ty: "iso_data ! off = 1"
    and sys: "list_all (\<lambda>b. unat b < 128) (slice iso_data (off + 8) (off + 72))"
  shows "pvd_loop iso_data off =
           Inr (Some (slice iso_data (off + 156) (off + 190),
                      unat (iso_data ! (off + 128)) + 256 * unat (iso_data ! (off + 129))))"
proof -
  let ?pvd = "slice iso_data off (off + 2048)"
  have g: "getitem ?pvd 0 = Inr 1" using len ty by (simp add: getitem_sector)
  have s1: "slice ?pvd 8 40 = slice iso_data (off + 8) (off + 40)" by (simp add: slice_slice)
  have s2: "slice ?pvd 40 72 = slice iso_data (off + 40) (off + 72)" by (simp add: slice_slice)
  have split: "slice iso_data (off + 8) (off + 72) =
                 slice iso_data (off + 8) (off + 40) @ slice iso_data (off + 40) (off + 72)"
  proof -
    have "take 64 (drop (off + 8) iso_data) =
            take 32 (drop (off + 8) iso_data) @ take 32 (drop 32 (drop (off + 8) iso_data))"
      using take_add[of 32 32 "drop (off + 8) iso_data"] by simp
    then show ?thesis by (simp add: slice_def add.commute)
  qed
  from sys split have a1: "list_all (\<lambda>b. unat b < 128) (slice iso_data (off + 8) (off + 40))"
    and a2: "list_all (\<lambda>b. unat b < 128) (slice iso_data (off + 40) (off + 72))" by simp_all
  have d1: "\<exists>v. decode_ascii (slice ?pvd 8 40) = Inr v" using a1 s1 by (simp add: decode_ascii_def)
  have d2: "\<exists>v. decode_ascii (slice ?pvd 40 72) = Inr v" using a2 s2 by (simp add: decode_ascii_def)
  have u1: "\<exists>v. unpack_I (slice ?pvd 80 84) = Inr v"
    using len by (simp add: unpack_I_def slice_slice length_slice)
  have u2: "\<exists>v. unpack_H (slice ?pvd 120 122) = Inr v"
    using len by (simp add: unpack_H_def slice_slice length_slice)
  have u3: "\<exists>v. unpack_H (slice ?pvd 124 126) = Inr v"
    using len by (simp add: unpack_H_def slice_slice length_slice)
  have e2: "off + 128 + 2 = off + 130" and e1: "off + 128 + 1 = off + 129" by simp_all
  have "slice ?pvd 128 130 = slice iso_data (off + 128) (off + 130)"
    by (simp add: slice_slice)
  also have "\<dots> = slice iso_data (off + 128) (off + 128 + 2)"
    by (simp only: e2)
  also have "\<dots> = [iso_data ! (off + 128), iso_data ! (off + 128 + 1)]"
    using len by (intro slice_two) simp
  finally have u4: "unpack_H (slice ?pvd 128 130) =
      Inr (unat (iso_data ! (off + 128)) + 256 * unat (iso_data ! (off + 129)))"
    by (simp add: unpack_H_def add.commute)
  have u5: "\<exists>v. unpack_I (slice ?pvd 132 136) = Inr v"
    using len by (simp add: unpack_I_def slice_slice length_slice)
  have r: "slice ?pvd 156 190 = slice iso_data (off + 156) (off + 190)" by (simp add: slice_slice)
  from d1 d2 u1 u2 u3 u5 obtain v1 v2 v3 v4 v5 v6 where
    "decode_ascii (slice ?pvd 8 40) = Inr v1" "decode_ascii (slice ?pvd 40 72) = Inr v2"
    "unpack_I (slice ?pvd 80 84) = Inr v3" "unpack_H (slice ?pvd 120 122) = Inr v4"
    "unpack_H (slice ?pvd 124 126) = Inr v5" "unpack_I (slice ?pvd 132 136) = Inr v6"
    by blast
  with g u4 r show ?thesis
    by (subst pvd_loop.simps) (simp add: Let_def)
qed

lemma pvd_loop_no_marker:
  assumes "\<forall>k. off + 2048 * k < length iso_data \<longrightarrow>
             iso_data ! (off + 2048 * k) \<noteq> 1 \<and> iso_data ! (off + 2048 * k) \<noteq> 255"
  shows "pvd_loop iso_data off = Inl IndexError"
  using assms
proof (induction "length iso_data - off" arbitrary: off rule: less_induct)
  case less
  show ?case
  proof (cases "off < length iso_data")
    case False
    then show ?thesis by (simp add: pvd_loop_end)
  next
    case True
    from less.prems[rule_format, of 0] True
    have nm: "iso_data ! off \<noteq> 1" "iso_data ! off \<noteq> 255" by simp_all
    have shift: "\<forall>k. (off + 2048) + 2048 * k < length iso_data \<longrightarrow>
             iso_data ! ((off + 2048) + 2048 * k) \<noteq> 1 \<and> iso_data ! ((off + 2048) + 2048 * k) \<noteq> 255"
    proof (intro allI impI)
      fix k assume "(off + 2048) + 2048 * k < length iso_data"
      with less.prems[rule_format, of "Suc k"]
      show "iso_data ! ((off + 2048) + 2048 * k) \<noteq> 1 \<and> iso_data ! ((off + 2048) + 2048 * k) \<noteq> 255"
        by (simp add: add.assoc)
    qed
    have "pvd_loop iso_data off = pvd_loop iso_data (off + 2048)"
      using True nm by (rule pvd_loop_skip)
    also have "\<dots> = Inl IndexError"
      using True by (intro less.hyps shift) simp
    finally show ?thesis .
  qed
qed

lemma pvd_loop_reaches_terminator:
  "off + 2048 * k < length iso_data \<Longrightarrow> iso_data ! (off + 2048 * k) = 255 \<Longrightarrow>
   (\<forall>j<k. iso_data ! (off + 2048 * j) \<noteq> 1) \<Longrightarrow> pvd_loop iso_data off = Inr None"
proof (induction k arbitrary: off)
  case 0
  then show ?case by (simp add: pvd_loop_terminator)
next
  case (Suc k)
  have lt: "off < length iso_data" using Suc.prems(1) by simp
  show ?case
  proof (cases "iso_data ! off = 255")
    case True
    with lt show ?thesis by (simp add: pvd_loop_terminator)
  next
    case False
    from Suc.prems(3) have "iso_data ! (off + 2048 * 0) \<noteq> 1" by blast
    then have n1: "iso_data ! off \<noteq> 1" by simp
    have "pvd_loop iso_data off = pvd_loop iso_data (off + 2048)"
      using lt n1 False by (rule pvd_loop_skip)
    also have "\<dots> = Inr None"
    proof (rule Suc.IH)
      show "off + 2048 + 2048 * k < length iso_data" using Suc.prems(1) by simp
      show "iso_data ! (off + 2048 + 2048 * k) = 255" using Suc.prems(2) by (simp add: add.assoc)
      show "\<forall>j<k. iso_data ! (off + 2048 + 2048 * j) \<noteq> 1"
      proof (intro allI impI)
        fix j assume "j < k"
        then have "Suc j < Suc k" by simp
        with Suc.prems(3) have "iso_data ! (off + 2048 * Suc j) \<noteq> 1" by blast
        then show "iso_data ! (off + 2048 + 2048 * j) \<noteq> 1" by (simp add: add.assoc)
      qed
    qed
    finally show ?thesis .
  qed
qed

lemma pvd_image_primary: "pvd_image ! 0x8000 = 1"
  by (simp add: pvd_image_def pvd_sector_def nth_append)

lemma pvd_image_terminator: "pvd_image ! (0x8000 + 2048 * 1) = 255"
  by (simp add: pvd_image_def pvd_sector_def root_record_bytes_def terminator_sector_def
                nth_append)

lemma pvd_image_ascii:
  "list_all (\<lambda>b. unat b < 128) (slice pvd_image (0x8000 + 8) (0x8000 + 72))"
  by (simp add: pvd_image_def pvd_sector_def slice_def list_all_iff)

lemma pvd_image_root: "slice pvd_image (0x8000 + 156) (0x8000 + 190) = root_record_bytes"
  by (simp add: pvd_image_def pvd_sector_def root_record_bytes_def slice_def)

lemma pvd_image_block_size:
  "unat (pvd_image ! (0x8000 + 128)) + 256 * unat (pvd_image ! (0x8000 + 129)) = 2048"
  by (simp add: pvd_image_def pvd_sector_def nth_append)

lemma pvd_image_length: "length pvd_image = 36864"
  by (simp add: pvd_image_def pvd_sector_def root_record_bytes_def terminator_sector_def)

text \<open>
  C3 (amended). The claim: for every image whose sector at 0x8000 has first byte 1 and
  that has a Terminator at a later sector, the function returns the block size read as a
  little-endian u16 at [128:130) of the sector and the raw 34 bytes at [156:190). The
  code also decodes the system and volume identifiers at [8:72) as ASCII before it
  returns, and raises UnicodeDecodeError on a byte above 127 there. With the bytes at
  [8:72) of the sector all below 128 the claim holds as stated; the root record comes
  back as the 34 raw bytes, undecoded.
\<close>

theorem pvd_returns_block_size_and_root_record:
  assumes "iso_data ! 0x8000 = 1"
    and "1 \<le> k" and "0x8000 + 2048 * k < length iso_data" and "iso_data ! (0x8000 + 2048 * k) = 255"
    and "list_all (\<lambda>b. unat b < 128) (slice iso_data (0x8000 + 8) (0x8000 + 72))"
  shows "parse_iso9660_primary_volume_descriptor iso_data =
           Inr (Some (slice iso_data (0x8000 + 156) (0x8000 + 190),
                      unat (iso_data ! (0x8000 + 128)) + 256 * unat (iso_data ! (0x8000 + 129))))
         \<and> length (slice iso_data (0x8000 + 156) (0x8000 + 190)) = 34"
proof -
  from assms(2,3) have len: "0x8000 + 2048 \<le> length iso_data" by simp
  from pvd_loop_primary[OF len assms(1) assms(5)] len show ?thesis
    by (simp add: parse_iso9660_primary_volume_descriptor_def length_slice)
qed


theorem pvd_returns_block_size_and_root_record_witness:
  "parse_iso9660_primary_volume_descriptor pvd_image = Inr (Some (root_record_bytes, 2048))"
  using pvd_returns_block_size_and_root_record[of pvd_image 1]
        pvd_image_primary pvd_image_terminator pvd_image_ascii pvd_image_root
        pvd_image_block_size pvd_image_length
  by simp

text \<open>
  C3, the claim as stated fails: this image has first byte 1 at 0x8000 and a Terminator in
  the next sector, and the function raises UnicodeDecodeError.
\<close>

theorem pvd_non_ascii_system_id_raises:
  "bad_sysid_image ! 0x8000 = 1 \<and> 0x8000 + 2048 < length bad_sysid_image
   \<and> bad_sysid_image ! (0x8000 + 2048) = 255
   \<and> parse_iso9660_primary_volume_descriptor bad_sysid_image = Inl UnicodeDecodeError"
  apply (simp add: bad_sysid_image_def nth_append terminator_sector_def parse_iso9660_primary_volume_descriptor_def)
  apply (subst pvd_loop.simps)
  apply (simp add: getitem_def slice_def decode_ascii_def list_all_iff)
  done

text \<open>
  C8. When some sector start at or after 0x8000 holds a Terminator (first byte 255) and no
  sector start before it holds a Primary Volume Descriptor (first byte 1), the function
  returns the failure value \<^verbatim>\<open>(None, None)\<close>.
\<close>

theorem terminator_without_primary_returns_none:
  assumes "0x8000 + 2048 * k < length iso_data"
    and "iso_data ! (0x8000 + 2048 * k) = 255"
    and "\<forall>j<k. iso_data ! (0x8000 + 2048 * j) \<noteq> 1"
  shows "parse_iso9660_primary_volume_descriptor iso_data = Inr None"
  unfolding parse_iso9660_primary_volume_descriptor_def
  using assms by (rule pvd_loop_reaches_terminator)

theorem terminator_without_primary_returns_none_witness:
  "parse_iso9660_primary_volume_descriptor no_primary_image = Inr None"
proof -
  have "0x8000 + 2048 * 1 < length no_primary_image"
    by (simp add: no_primary_image_def terminator_sector_def)
  moreover have "no_primary_image ! (0x8000 + 2048 * 1) = 255"
    by (simp add: no_primary_image_def terminator_sector_def nth_append)
  moreover have "\<forall>j<1. no_primary_image ! (0x8000 + 2048 * j) \<noteq> 1"
    by (simp add: no_primary_image_def nth_append)
  ultimately show ?thesis
    by (rule terminator_without_primary_returns_none)
qed

text \<open>
  C9. The scan is not total over images: on an image shorter than 0x8001 bytes, and on an
  image in which no sector start 0x8000 + 2048 k holds first byte 1 or 255, the function
  raises IndexError (\<^verbatim>\<open>descriptor[0]\<close> on an empty slice) instead of returning the
  failure value.
\<close>

theorem pvd_scan_raises_index_error:
  "(length iso_data < 0x8001 \<longrightarrow>
      parse_iso9660_primary_volume_descriptor iso_data = Inl IndexError)
   \<and> ((\<forall>k. 0x8000 + 2048 * k < length iso_data \<longrightarrow>
            iso_data ! (0x8000 + 2048 * k) \<noteq> 1 \<and> iso_data ! (0x8000 + 2048 * k) \<noteq> 255) \<longrightarrow>
      parse_iso9660_primary_volume_descriptor iso_data = Inl IndexError)"
  unfolding parse_iso9660_primary_volume_descriptor_def
  by (auto intro: pvd_loop_end pvd_loop_no_marker)

theorem pvd_scan_raises_index_error_witness:
  "parse_iso9660_primary_volume_descriptor [] = Inl IndexError
   \<and> parse_iso9660_primary_volume_descriptor (replicate 34816 0) = Inl IndexError"
proof -
  have "\<forall>k. 0x8000 + 2048 * k < length (replicate 34816 (0 :: byte)) \<longrightarrow>
          replicate 34816 (0 :: byte) ! (0x8000 + 2048 * k) \<noteq> 1
          \<and> replicate 34816 (0 :: byte) ! (0x8000 + 2048 * k) \<noteq> 255"
    by simp
  with pvd_scan_raises_index_error[of "replicate 34816 0"]
  have "parse_iso9660_primary_volume_descriptor (replicate 34816 0) = Inl IndexError"
    by blast
  moreover from pvd_scan_raises_index_error[of "[]"]
  have "parse_iso9660_primary_volume_descriptor [] = Inl IndexError" by simp
  ultimately show ?thesis by simp
qed

section \<open>The signature scan\<close>

lemma bytes_find_Some:
  "bytes_find xs sub = Some p \<Longrightarrow>
     take (length sub) (drop p xs) = sub \<and> (\<forall>q<p. take (length sub) (drop q xs) \<noteq> sub)"
proof (induction xs arbitrary: p)
  case Nil
  then show ?case by (simp split: if_splits)
next
  case (Cons x xs)
  show ?case
  proof (cases "take (length sub) (x # xs) = sub")
    case True
    with Cons.prems show ?thesis by simp
  next
    case False
    with Cons.prems obtain p' where p': "bytes_find xs sub = Some p'" and p: "p = Suc p'"
      by auto
    from Cons.IH[OF p'] have m: "take (length sub) (drop p' xs) = sub"
      and nm: "\<forall>q<p'. take (length sub) (drop q xs) \<noteq> sub" by simp_all
    have "\<forall>q<p. take (length sub) (drop q (x # xs)) \<noteq> sub"
    proof (intro allI impI)
      fix q assume "q < p"
      show "take (length sub) (drop q (x # xs)) \<noteq> sub"
      proof (cases q)
        case 0
        with False show ?thesis by simp
      next
        case (Suc q')
        with \<open>q < p\<close> p have "q' < p'" by simp
        with nm Suc show ?thesis by simp
      qed
    qed
    with m p show ?thesis by simp
  qed
qed

lemma bytes_find_None:
  "sub \<noteq> [] \<Longrightarrow> bytes_find xs sub = None \<Longrightarrow> take (length sub) (drop q xs) \<noteq> sub"
proof (induction xs arbitrary: q)
  case Nil
  then show ?case by auto
next
  case (Cons x xs)
  from Cons.prems(2) have nm: "take (length sub) (x # xs) \<noteq> sub" and r: "bytes_find xs sub = None"
    by (auto split: if_splits)
  show ?case
  proof (cases q)
    case 0
    with nm show ?thesis by simp
  next
    case (Suc q')
    with Cons.IH[OF Cons.prems(1) r, of q'] show ?thesis by simp
  qed
qed

lemma bytes_find_first:
  assumes "sub \<noteq> []" and "take (length sub) (drop p xs) = sub"
    and "\<forall>q<p. take (length sub) (drop q xs) \<noteq> sub"
  shows "bytes_find xs sub = Some p"
proof (cases "bytes_find xs sub")
  case None
  from bytes_find_None[OF assms(1) None, of p] assms(2) show ?thesis by simp
next
  case (Some p')
  from bytes_find_Some[OF Some] have m: "take (length sub) (drop p' xs) = sub"
    and nm: "\<forall>q<p'. take (length sub) (drop q xs) \<noteq> sub" by simp_all
  have "\<not> p' < p" using assms(3) m by blast
  moreover have "\<not> p < p'" using nm assms(2) by blast
  ultimately have "p' = p" by simp
  with Some show ?thesis by simp
qed

lemma bytes_find_absent:
  assumes "sub \<noteq> []" and "\<forall>q. take (length sub) (drop q xs) \<noteq> sub"
  shows "bytes_find xs sub = None"
proof (cases "bytes_find xs sub")
  case None then show ?thesis .
next
  case (Some p)
  from bytes_find_Some[OF Some] assms(2) show ?thesis by blast
qed


text \<open>
  C7. When the signature occurs in the image and \<open>p\<close> is the offset of its first
  occurrence, the scan yields the window from \<open>p\<close> to
  \<open>min (p + 20 MiB) (length of the image)\<close>; when the signature occurs nowhere the
  scan reports no match.
\<close>

theorem fallback_scan_window:
  "(slice iso_data p (p + 4) = kernel_magic \<and> (\<forall>q<p. slice iso_data q (q + 4) \<noteq> kernel_magic)
      \<longrightarrow> fallback_scan iso_data =
            Some (slice iso_data p (min (p + 20 * 1024 * 1024) (length iso_data))))
   \<and> ((\<forall>q. slice iso_data q (q + 4) \<noteq> kernel_magic) \<longrightarrow> fallback_scan iso_data = None)"
proof (intro conjI impI)
  have l: "length kernel_magic = 4" and ne: "kernel_magic \<noteq> []" by (simp_all add: kernel_magic_def)
  {
    assume "slice iso_data p (p + 4) = kernel_magic \<and> (\<forall>q<p. slice iso_data q (q + 4) \<noteq> kernel_magic)"
    then have "bytes_find iso_data kernel_magic = Some p"
      by (intro bytes_find_first ne) (simp_all add: l slice_def)
    then show "fallback_scan iso_data =
            Some (slice iso_data p (min (p + 20 * 1024 * 1024) (length iso_data)))"
      by (simp add: fallback_scan_def slice_clip)
  }
  {
    assume "\<forall>q. slice iso_data q (q + 4) \<noteq> kernel_magic"
    then have "bytes_find iso_data kernel_magic = None"
      by (intro bytes_find_absent ne) (simp_all add: l slice_def)
    then show "fallback_scan iso_data = None" by (simp add: fallback_scan_def)
  }
qed

theorem fallback_scan_window_witness:
  "fallback_scan [0, 0xb8, 0xc0, 0x07, 0x8e, 1, 2] = Some [0xb8, 0xc0, 0x07, 0x8e, 1, 2]
   \<and> fallback_scan [1, 2, 3] = None"
proof -
  have a: "\<forall>q. slice [1, 2, 3] q (q + 4) \<noteq> kernel_magic"
  proof
    fix q
    have "length (slice [1, 2, 3 :: byte] q (q + 4)) \<le> 3" by (simp add: slice_def)
    moreover have "length kernel_magic = 4" by (simp add: kernel_magic_def)
    ultimately show "slice [1, 2, 3] q (q + 4) \<noteq> kernel_magic" by auto
  qed
  have b: "slice [0, 0xb8, 0xc0, 0x07, 0x8e, 1, 2] 1 (1 + 4) = kernel_magic
           \<and> (\<forall>q<1. slice [0, 0xb8, 0xc0, 0x07, 0x8e, 1, 2] q (q + 4) \<noteq> kernel_magic)"
    by (simp add: slice_def kernel_magic_def)
  from fallback_scan_window[of "[0, 0xb8, 0xc0, 0x07, 0x8e, 1, 2]" 1] b
  have "fallback_scan [0, 0xb8, 0xc0, 0x07, 0x8e, 1, 2] = Some [0xb8, 0xc0, 0x07, 0x8e, 1, 2]"
    by (simp add: slice_def)
  moreover from fallback_scan_window[of "[1, 2, 3]"] a have "fallback_scan [1, 2, 3] = None" by blast
  ultimately show ?thesis by simp
qed

section \<open>The walk of find\_file\_in\_path\<close>

text \<open>
  Every scan starts at offset 0, which is a multiple of every block size. So the scan of
  a directory either finds the content empty, or loops at a zero byte, or hands a record
  with a nonzero first byte to \<^verbatim>\<open>parse_directory_record\<close>, which raises: no entry
  is ever matched.
\<close>

lemma scan_entries_first_record_raises:
  assumes "d \<noteq> []" and "d ! 0 \<noteq> 0"
  shows "\<exists>e. scan_entries d bs c 0 = Some (Inl e)"
proof -
  let ?rec = "slice d 0 (0 + unat (d ! 0))"
  from assms(2) have u: "unat (d ! 0) \<noteq> 0" by (simp add: unat_eq_0)
  with assms(1) have ne: "?rec \<noteq> []" by (simp add: slice_def)
  have "?rec ! 0 = d ! 0" using u assms(1) by (simp add: slice_def)
  with assms(2) have "?rec ! 0 \<noteq> 0" by simp
  from parse_directory_record_raises[OF ne this] obtain e where
    "parse_directory_record ?rec = Inl e" by blast
  with assms(1) u have "scan_entries d bs c 0 = Some (Inl e)"
    by (subst scan_entries.simps) (simp add: Let_def)
  then show ?thesis by blast
qed

lemma scan_entries_first_record_struct_error:
  assumes "3 \<le> length d" and "3 \<le> unat (d ! 0)"
  shows "scan_entries d bs c 0 = Some (Inl StructError)"
proof -
  let ?rec = "slice d 0 (0 + unat (d ! 0))"
  from assms have l: "3 \<le> length ?rec" by (simp add: slice_def)
  from assms(2) have nz: "d ! 0 \<noteq> 0" by auto
  have "?rec ! 0 = d ! 0" using assms by (simp add: slice_def)
  with nz have "?rec ! 0 \<noteq> 0" by simp
  moreover from assms(1) have "d \<noteq> []" by auto
  moreover from assms(2) have "unat (d ! 0) \<noteq> 0" by simp
  ultimately show ?thesis
    using parse_directory_record_struct_error[OF l]
    by (subst scan_entries.simps) (simp add: Let_def)
qed

lemma scan_entries_from_start_never_found:
  "scan_entries d bs c 0 \<noteq> Some (Inr (Some entry))"
proof (cases "d = []")
  case True
  then show ?thesis by (subst scan_entries.simps) simp
next
  case False
  show ?thesis
  proof (cases "d ! 0 = 0")
    case nz: False
    from scan_entries_first_record_raises[OF False nz, of bs c] show ?thesis by auto
  next
    case z: True
    show ?thesis
    proof (cases "bs = 0")
      case True
      with False z show ?thesis by (subst scan_entries.simps) simp
    next
      case bs: False
      from False have "0 < length d" by simp
      from scan_entries_aligned_zero_diverges[OF this z bs, of c] show ?thesis by simp
    qed
  qed
qed

lemma walk_path_never_found:
  "walk_path iso_data bs cur (c # cs) \<noteq> Some (Inr (Some entry))"
  using scan_entries_from_start_never_found
  by (auto simp: Let_def split: option.splits sum.splits)

lemma find_file_in_path_never_found:
  "find_file_in_path iso_data root bs path \<noteq> Some (Inr (Some entry))"
  using walk_path_never_found
  by (cases path) (auto simp: find_file_in_path_def split: option.splits)

lemma length_tree_root_sector: "length tree_root_sector = 2048"
  by (simp add: tree_root_sector_def)

lemma tree_root_dir_data: "slice tree_image 0 2048 = tree_root_sector"
  by (simp add: slice_def tree_image_def length_tree_root_sector)

lemma tree_root_sector_first: "tree_root_sector ! 0 = 34"
  by (simp add: tree_root_sector_def)

lemma tree_root_scan: "scan_entries tree_root_sector 2048 c 0 = Some (Inl StructError)"
  by (rule scan_entries_first_record_struct_error)
     (simp_all add: length_tree_root_sector tree_root_sector_first)


lemma find_file_in_path_root_not_dir:
  "\<not> is_dir current \<Longrightarrow>
   find_file_in_path iso_data (Some current) block_size (component # rest) = Some (Inr None)"
  by (simp add: find_file_in_path_def)

text \<open>
  C2 (the code misses the claim). The claim: in a well-formed image with a file of length
  L at a known extent, \<^verbatim>\<open>find_file_in_path\<close> resolves the file's path and
  \<^verbatim>\<open>extract_file\<close> then yields the L bytes at \<open>extent * block_size\<close>. In
  \<open>tree_image\<close> the file \<open>D/F\<close> has its 3 bytes at block 2, and the lookup of
  \<open>[''D'', ''F'']\<close> raises \<^verbatim>\<open>struct.error\<close> on the first record of the root
  directory, so there is no record to extract from.
\<close>

theorem find_file_in_path_tree_file_raises:
  "slice tree_image (2 * 2048) (2 * 2048 + 3) = tree_payload
   \<and> find_file_in_path tree_image (Some tree_root) 2048 [''D'', ''F''] = Some (Inl StructError)"
  by (simp add: find_file_in_path_def tree_root_def tree_root_dir_data tree_root_scan)
     (simp add: slice_def tree_image_def tree_root_sector_def tree_sub_sector_def tree_payload_def)


text \<open>
  C6 (the code misses the claim). The claim: when a component matches no entry of its
  directory, \<^verbatim>\<open>find_file_in_path\<close> returns \<^verbatim>\<open>None\<close>. In \<open>tree_image\<close>
  the directory \<open>D\<close> has no entry \<open>X\<close>, and the lookup of \<open>[''D'', ''X'']\<close>
  raises \<^verbatim>\<open>struct.error\<close> instead of returning \<^verbatim>\<open>None\<close>.
\<close>

theorem find_file_in_path_missing_component_raises:
  "find_file_in_path tree_image (Some tree_root) 2048 [''D'', ''X''] = Some (Inl StructError)"
  by (simp add: find_file_in_path_def tree_root_def tree_root_dir_data tree_root_scan)


section \<open>Extent reads\<close>

lemma take_clipped: "take (min n (length xs)) xs = take n xs"
  by (simp add: min_def)

lemma slice_clipped_length:
  "slice xs a (a + min n (length xs - a)) = slice xs a (a + n)"
  using take_clipped[of n "drop a xs"] by (simp add: slice_def)

lemma walk_path_clipped:
  "walk_path iso_data block_size
     (current\<lparr>data_length := min (data_length current)
                                    (length iso_data - extent current * block_size)\<rparr>)
     (component # rest) =
   walk_path iso_data block_size current (component # rest)"
  by (simp add: slice_clipped_length)

lemma scan_entries_empty: "scan_entries [] block_size component 0 = Some (Inr None)"
  by (subst scan_entries.simps) simp

text \<open>
  C5 (amended). The claim: an extent that reaches past the end of the image makes the
  read fail with OutOfBounds, in \<^verbatim>\<open>extract_file\<close> and in the directory reads of
  \<^verbatim>\<open>find_file_in_path\<close>. The code has no bounds check: both reads are Python
  slices, clipped to the image.

  \<^item> Whenever the output file can be written, \<^verbatim>\<open>extract_file\<close> returns the bytes
    from \<open>extent * block_size\<close> on, at most \<open>data_length\<close> of them, whatever the
    extent and the length are.
  \<^item> What it returns has \<open>min data_length (len - extent * block_size)\<close> bytes and is
    what the output file holds.
  \<^item> It fails only where \<^verbatim>\<open>open\<close> fails (ValueError, OSError), never because of
    the extent.
  \<^item> The directory reads of \<^verbatim>\<open>find_file_in_path\<close> are clipped the same way:
    the lookup from a directory record is the lookup from the same record with its length
    cut down to the bytes the image has from \<open>extent * block_size\<close> on.
  \<^item> So a directory whose extent starts at or past the end of the image is read as
    empty, and the lookup returns \<^verbatim>\<open>None\<close>.
\<close>

theorem extract_file_clips_to_image:
  "(CHR 0x00 \<notin> set output_path \<and> writable fs output_path \<longrightarrow>
      (\<exists>fs'. extract_file iso_data file_record block_size output_path fs =
         Inr (take (data_length file_record) (drop (extent file_record * block_size) iso_data),
              fs')))
   \<and> (extract_file iso_data file_record block_size output_path fs = Inr (file_data, fs1) \<longrightarrow>
        length file_data =
          min (data_length file_record) (length iso_data - extent file_record * block_size)
        \<and> contents fs1 output_path = Some file_data)
   \<and> (extract_file iso_data file_record block_size output_path fs = Inl e \<longrightarrow>
        (e = ValueError \<and> CHR 0x00 \<in> set output_path)
        \<or> (e = OSError \<and> \<not> writable fs output_path))
   \<and> find_file_in_path iso_data
         (Some (current\<lparr>data_length := min (data_length current)
                                            (length iso_data - extent current * block_size)\<rparr>))
         block_size path_components =
       find_file_in_path iso_data (Some current) block_size path_components
   \<and> (is_dir current \<and> length iso_data \<le> extent current * block_size \<longrightarrow>
        find_file_in_path iso_data (Some current) block_size (component # rest) =
          Some (Inr None))"
proof (intro conjI impI)
  assume "CHR 0x00 \<notin> set output_path \<and> writable fs output_path"
  then show "\<exists>fs'. extract_file iso_data file_record block_size output_path fs =
         Inr (take (data_length file_record) (drop (extent file_record * block_size) iso_data),
              fs')"
    by (simp add: extract_file_def Let_def slice_def)
next
  assume r: "extract_file iso_data file_record block_size output_path fs = Inr (file_data, fs1)"
  then have d: "file_data = slice iso_data (extent file_record * block_size)
                  (extent file_record * block_size + data_length file_record)"
    by (simp add: extract_file_def Let_def split: if_splits)
  then show "length file_data =
          min (data_length file_record) (length iso_data - extent file_record * block_size)"
    by (simp add: length_slice)
  from r show "contents fs1 output_path = Some file_data"
    by (auto simp: extract_file_def Let_def split: if_splits)
next
  assume "extract_file iso_data file_record block_size output_path fs = Inl e"
  then show "(e = ValueError \<and> CHR 0x00 \<in> set output_path)
        \<or> (e = OSError \<and> \<not> writable fs output_path)"
    by (auto simp: extract_file_def Let_def split: if_splits)
next
  show "find_file_in_path iso_data
         (Some (current\<lparr>data_length := min (data_length current)
                                            (length iso_data - extent current * block_size)\<rparr>))
         block_size path_components =
       find_file_in_path iso_data (Some current) block_size path_components"
  proof (cases path_components)
    case Nil
    then show ?thesis by (simp add: find_file_in_path_def)
  next
    case (Cons c cs)
    with walk_path_clipped[of iso_data block_size current c cs] show ?thesis
      by (simp add: find_file_in_path_def)
  qed
next
  assume a: "is_dir current \<and> length iso_data \<le> extent current * block_size"
  then have "slice iso_data (extent current * block_size)
               (extent current * block_size + data_length current) = []"
    by (simp add: slice_def)
  with a show "find_file_in_path iso_data (Some current) block_size (component # rest) =
          Some (Inr None)"
    by (simp add: find_file_in_path_def scan_entries_empty)
qed

theorem extract_file_clips_to_image_witness:
  "(\<exists>fs'. extract_file [1, 2, 3] oversized_file 1 ''out'' open_fs = Inr ([1, 2, 3], fs'))
   \<and> extract_file [1, 2, 3] oversized_file 1 ''out'' read_only_fs = Inl OSError
   \<and> find_file_in_path [34, 0, 0] (Some overlapping_dir) 2048 [''a''] = Some (Inl StructError)
   \<and> find_file_in_path [1, 2, 3] (Some far_dir) 1 [''a''] = Some (Inr None)"
proof (intro conjI)
  have "CHR 0x00 \<notin> set ''out'' \<and> writable open_fs ''out''"
    by (simp add: open_fs_def)
  with extract_file_clips_to_image
         [where output_path = "''out''" and fs = open_fs and iso_data = "[1, 2, 3]"
            and file_record = oversized_file and block_size = 1]
  show "\<exists>fs'. extract_file [1, 2, 3] oversized_file 1 ''out'' open_fs = Inr ([1, 2, 3], fs')"
    by (simp add: oversized_file_def)
next
  obtain e where e: "extract_file [1, 2, 3] oversized_file 1 ''out'' read_only_fs = Inl e"
    by (simp add: extract_file_def read_only_fs_def)
  with extract_file_clips_to_image
         [where output_path = "''out''" and fs = read_only_fs and iso_data = "[1, 2, 3]"
            and file_record = oversized_file and block_size = 1 and e = e]
  have "e = OSError" by simp
  with e show "extract_file [1, 2, 3] oversized_file 1 ''out'' read_only_fs = Inl OSError"
    by simp
next
  have "scan_entries [34, 0, 0] 2048 ''a'' 0 = Some (Inl StructError)"
    by (rule scan_entries_first_record_struct_error) simp_all
  then have "find_file_in_path [34, 0, 0]
               (Some (overlapping_dir\<lparr>data_length := min (data_length overlapping_dir)
                  (length [34, 0, 0 :: byte] - extent overlapping_dir * 2048)\<rparr>))
               2048 [''a''] = Some (Inl StructError)"
    by (simp add: find_file_in_path_def overlapping_dir_def slice_def)
  with extract_file_clips_to_image
         [where iso_data = "[34, 0, 0]" and current = overlapping_dir and block_size = 2048
            and path_components = "[''a'']"]
  show "find_file_in_path [34, 0, 0] (Some overlapping_dir) 2048 [''a''] = Some (Inl StructError)"
    by simp
next
  from extract_file_clips_to_image
         [where iso_data = "[1, 2, 3]" and current = far_dir and block_size = 1
            and component = "''a''" and rest = "[]"]
  show "find_file_in_path [1, 2, 3] (Some far_dir) 1 [''a''] = Some (Inr None)"
    by (simp add: far_dir_def)
qed

text \<open>
  C5, the claim as stated fails: the record asks for 10 bytes of a 3-byte image, the output
  file can be written, and \<^verbatim>\<open>extract_file\<close> returns the 3 bytes there are and writes
  them, with no error.
\<close>

theorem extract_file_truncates:
  "length [1, 2, 3 :: byte] < extent oversized_file * 1 + data_length oversized_file
   \<and> extract_file [1, 2, 3] oversized_file 1 ''out'' open_fs =
       Inr ([1, 2, 3], open_fs\<lparr>contents := [''out'' \<mapsto> [1, 2, 3]]\<rparr>)"
  by (simp add: extract_file_def oversized_file_def open_fs_def slice_def Let_def)

end
